theory Spec2Isabelle
  imports Main
begin

section \<open>Values of the parsed document\<close>

text \<open>
  The simplifier works on the tree that \<^verbatim>\<open>JSON.parse\<close> (or the YAML loader) returns.
  A value of that tree is one of the JavaScript values below. An object is the list of
  its own properties in enumeration order; an array is the list of its elements.
  A string is the list of its UTF-16 code units; the model covers the code units below
  256, which is what \<^typ>\<open>char\<close> holds.

  A number is a double. \<open>JNum n\<close> is the number whose value is the integer \<open>n\<close>
  (where \<open>n\<close> is too large to be a double itself, the double nearest to it). The other
  numbers are \<open>JNonInt\<close>: a fraction \<open>m / 2^k\<close> with \<open>m\<close> odd, the two infinities
  and NaN. Negative zero is not told apart from zero: the code never divides by a number
  or compares two of them, and both print as \<^verbatim>\<open>0\<close>.
\<close>

datatype nonint =
    Fraction int nat
  | PlusInfinity
  | MinusInfinity
  | NaN

datatype jsval =
    JUndefined
  | JNull
  | JBool bool
  | JNum int
  | JStr string
  | JArr "jsval list"
  | JObj "(string \<times> jsval) list"
  | JNonInt nonint

text \<open>
  What the code throws, with the text of \<^verbatim>\<open>err.message\<close>. \<open>TypeError\<close> is raised by
  the runtime (a property read on \<^verbatim>\<open>null\<close> or \<^verbatim>\<open>undefined\<close>, a call of something
  that is not a function, a value with no primitive form); its text is the engine's and
  only names the failed operation here. The other two are the \<^verbatim>\<open>new Error(...)\<close> of
  \<^verbatim>\<open>parseSpec\<close>.
\<close>

datatype js_error =
    TypeError string
  | ParserUnavailable
  | FormatError string

fun message :: "js_error \<Rightarrow> string" where
  "message (TypeError m) = m"
| "message ParserUnavailable = ''YAML parser not loaded yet''"
| "message (FormatError yamlMessage) = ''Invalid JSON or YAML format: '' @ yamlMessage"

text \<open>Sequencing of computations that may throw: the first exception wins.\<close>

fun bindE :: "js_error + 'a \<Rightarrow> ('a \<Rightarrow> js_error + 'b) \<Rightarrow> js_error + 'b" where
  "bindE (Inl e) f = Inl e"
| "bindE (Inr x) f = f x"

fun mapE :: "('a \<Rightarrow> js_error + 'b) \<Rightarrow> 'a list \<Rightarrow> js_error + 'b list" where
  "mapE f [] = Inr []"
| "mapE f (x # xs) = bindE (f x) (\<lambda>y. bindE (mapE f xs) (\<lambda>ys. Inr (y # ys)))"

section \<open>The JavaScript runtime operations the code relies on\<close>

subsection \<open>Truthiness and \<^verbatim>\<open>typeof\<close>\<close>

fun truthy :: "jsval \<Rightarrow> bool" where
  "truthy JUndefined = False"
| "truthy JNull = False"
| "truthy (JBool b) = b"
| "truthy (JNum n) = (n \<noteq> 0)"
| "truthy (JStr s) = (s \<noteq> [])"
| "truthy (JArr xs) = True"
| "truthy (JObj kvs) = True"
| "truthy (JNonInt (Fraction m k)) = (m \<noteq> 0)"
| "truthy (JNonInt PlusInfinity) = True"
| "truthy (JNonInt MinusInfinity) = True"
| "truthy (JNonInt NaN) = False"

fun nullish :: "jsval \<Rightarrow> bool" where
  "nullish JUndefined = True"
| "nullish JNull = True"
| "nullish v = False"

text \<open>\<^verbatim>\<open>typeof v === 'object'\<close> holds of objects, arrays and \<^verbatim>\<open>null\<close>.\<close>

fun typeofObject :: "jsval \<Rightarrow> bool" where
  "typeofObject JNull = True"
| "typeofObject (JArr xs) = True"
| "typeofObject (JObj kvs) = True"
| "typeofObject v = False"

text \<open>\<^verbatim>\<open>a || b\<close>\<close>

definition orElse :: "jsval \<Rightarrow> jsval \<Rightarrow> jsval" where
  "orElse a b = (if truthy a then a else b)"

subsection \<open>Strings\<close>

text \<open>
  The white space of \<^verbatim>\<open>\s\<close> and of \<^verbatim>\<open>trim()\<close> among the code units below 256:
  TAB, LF, VT, FF, CR, SP and NBSP.
\<close>

definition isWhiteSpace :: "char \<Rightarrow> bool" where
  "isWhiteSpace c \<longleftrightarrow>
     c \<in> set [CHR 0x09, CHR 0x0A, CHR 0x0B, CHR 0x0C, CHR 0x0D, CHR 0x20, CHR 0xA0]"

definition trim :: "string \<Rightarrow> string" where
  "trim s = rev (dropWhile isWhiteSpace (rev (dropWhile isWhiteSpace s)))"

text \<open>\<^verbatim>\<open>s.replace(/\s+/g, ' ')\<close>: every maximal run of white space becomes one space.\<close>

function collapseWhitespace :: "string \<Rightarrow> string" where
  "collapseWhitespace [] = []"
| "collapseWhitespace (c # cs) =
     (if isWhiteSpace c then CHR '' '' # collapseWhitespace (dropWhile isWhiteSpace cs)
      else c # collapseWhitespace cs)"
  by pat_completeness auto
termination
  by (relation "measure length") (auto simp: length_dropWhile_le less_Suc_eq_le)

definition startsWith :: "string \<Rightarrow> string \<Rightarrow> bool" where
  "startsWith s p \<longleftrightarrow> take (length p) s = p"

text \<open>\<^verbatim>\<open>s.replace(pat, '')\<close> with a string pattern: the first occurrence is removed.\<close>

fun removeFirst :: "string \<Rightarrow> string \<Rightarrow> string" where
  "removeFirst pat [] = []"
| "removeFirst pat (c # cs) =
     (if startsWith (c # cs) pat then drop (length pat) (c # cs)
      else c # removeFirst pat cs)"

definition toLowerChar :: "char \<Rightarrow> char" where
  "toLowerChar c =
     (let n = (of_char c :: nat)
      in if (65 \<le> n \<and> n \<le> 90) \<or> (192 \<le> n \<and> n \<le> 222 \<and> n \<noteq> 215)
         then char_of (n + 32) else c)"

definition toLowerCase :: "string \<Rightarrow> string" where
  "toLowerCase s = map toLowerChar s"

fun joinWith :: "string \<Rightarrow> string list \<Rightarrow> string" where
  "joinWith sep [] = []"
| "joinWith sep [x] = x"
| "joinWith sep (x # y # ys) = x @ sep @ joinWith sep (y # ys)"

subsection \<open>Numbers and their decimal text\<close>

definition digits :: string where
  "digits = ''0123456789''"

definition isDigit :: "char \<Rightarrow> bool" where
  "isDigit c \<longleftrightarrow> c \<in> set digits"

fun digitValue :: "char \<Rightarrow> nat" where
  "digitValue c = length (takeWhile (\<lambda>d. d \<noteq> c) digits)"

definition decimalValue :: "string \<Rightarrow> nat" where
  "decimalValue s = foldl (\<lambda>acc c. 10 * acc + digitValue c) 0 s"

function showNat :: "nat \<Rightarrow> string" where
  "showNat n = (if n < 10 then [digits ! n] else showNat (n div 10) @ [digits ! (n mod 10)])"
  by pat_completeness auto
termination
  by (relation "measure id") auto

declare showNat.simps [simp del]

text \<open>
  Rounding to the nearest double, ties to even: \<open>roundDouble P Q\<close> is the double
  nearest to \<open>P / Q\<close>, for \<open>P \<ge> 0\<close> and \<open>Q > 0\<close>, as \<open>Finite m e\<close> of value
  \<open>m * 2^e\<close> with \<open>m < 2^53\<close> and \<open>e \<ge> -1074\<close>; \<open>Overflow\<close> stands for infinity.
\<close>

datatype rounded = Zero | Finite int int | Overflow

function bitLength :: "int \<Rightarrow> nat" where
  "bitLength n = (if n \<le> 0 then 0 else Suc (bitLength (n div 2)))"
  by pat_completeness auto
termination
  by (relation "measure nat") auto

declare bitLength.simps [simp del]

definition roundHalfEven :: "int \<Rightarrow> int \<Rightarrow> int" where
  "roundHalfEven num den =
     (let q = num div den; r = num mod den
      in if den < 2 * r \<or> (2 * r = den \<and> odd q) then q + 1 else q)"

definition roundDouble :: "int \<Rightarrow> int \<Rightarrow> rounded" where
  "roundDouble P Q =
     (if P = 0 then Zero
      else
        let g = int (bitLength P) - int (bitLength Q);
            l = (if (if 0 \<le> g then Q * 2 ^ nat g \<le> P else Q \<le> P * 2 ^ nat (- g)) then g else g - 1);
            e = max (l - 52) (- 1074);
            m = (if 0 \<le> e then roundHalfEven P (Q * 2 ^ nat e)
                 else roundHalfEven (P * 2 ^ nat (- e)) Q);
            m' = (if m = 2 ^ 53 then 2 ^ 52 else m);
            e' = (if m = 2 ^ 53 then e + 1 else e)
        in if m' = 0 then Zero else if 971 < e' then Overflow else Finite m' e')"

text \<open>
  The number of value \<open>P / Q\<close>, negated when \<open>negative\<close>, after rounding: \<open>JNum\<close>
  when the double is an integer, a fraction in lowest terms otherwise. An integer below
  \<open>2^53\<close> is a double and is kept as it is.
\<close>

fun dyadic :: "int \<Rightarrow> nat \<Rightarrow> jsval" where
  "dyadic m 0 = JNum m"
| "dyadic m (Suc k) = (if even m then dyadic (m div 2) k else JNonInt (Fraction m (Suc k)))"

definition numberValue :: "bool \<Rightarrow> int \<Rightarrow> int \<Rightarrow> jsval" where
  "numberValue negative P Q =
     (if Q = 1 \<and> P < 2 ^ 53 then JNum (if negative then - P else P)
      else case roundDouble P Q of
             Zero \<Rightarrow> JNum 0
           | Overflow \<Rightarrow> JNonInt (if negative then MinusInfinity else PlusInfinity)
           | Finite m e \<Rightarrow>
               (if 0 \<le> e then JNum ((if negative then - m else m) * 2 ^ nat e)
                else dyadic (if negative then - m else m) (nat (- e))))"

text \<open>
  \<^verbatim>\<open>String(x)\<close> for a number, as ECMAScript defines it: the digits are those of the
  integer \<open>s\<close> with the fewest digits \<open>k\<close> such that \<open>s * 10^(n - k)\<close> rounds to
  \<open>x\<close>, the one nearest to \<open>x\<close> where several qualify. \<open>R / S\<close> is \<open>x\<close>, and
  \<open>(R - Mminus) / S\<close> and \<open>(R + Mplus) / S\<close> are the bounds of the values that round
  to it, which belong to them when the mantissa is even. Up to 21 digits before the
  point and up to six zeros after it are written out; beyond that the exponent notation
  is used.
\<close>

definition decimalExponent :: "int \<Rightarrow> int \<Rightarrow> int" where
  "decimalExponent R S =
     (if S \<le> R then int (length (showNat (nat (R div S))))
      else case find (\<lambda>j. S \<le> R * 10 ^ Suc j) [0..<400] of
             Some j \<Rightarrow> - int j
           | None \<Rightarrow> 0)"

definition candidate :: "int \<Rightarrow> int \<Rightarrow> int \<Rightarrow> int \<Rightarrow> bool \<Rightarrow> int \<Rightarrow> nat \<Rightarrow> int option" where
  "candidate R S Mminus Mplus inclusive p k =
     (let T = (if int k \<le> p then 1 else 10 ^ nat (int k - p));
          D = S * (if int k \<le> p then 10 ^ nat (p - int k) else 1);
          low = (R - Mminus) * T;
          high = (R + Mplus) * T;
          inRange = (\<lambda>s. if inclusive then low \<le> s * D \<and> s * D \<le> high
                          else low < s * D \<and> s * D < high);
          s1 = (R * T) div D;
          s2 = s1 + 1;
          d1 = R * T - s1 * D;
          d2 = s2 * D - R * T
      in if inRange s1 \<and> inRange s2
         then Some (if d1 < d2 then s1 else if d2 < d1 then s2 else if even s1 then s1 else s2)
         else if inRange s1 then Some s1
         else if inRange s2 then Some s2
         else None)"

fun stripZeros :: "string \<Rightarrow> string" where
  "stripZeros s = rev (dropWhile (\<lambda>c. c = CHR ''0'') (rev s))"

definition shortestDigits :: "int \<Rightarrow> int \<Rightarrow> string \<times> int" where
  "shortestDigits m e =
     (let boundary = (m = 2 ^ 52 \<and> - 1074 < e);
          R = (if 0 \<le> e then m * 2 ^ nat e * 4 else m * 4);
          S = (if 0 \<le> e then 4 else 2 ^ nat (- e) * 4);
          Mplus = (if 0 \<le> e then 2 ^ nat e * 2 else 2);
          Mminus = (if boundary then Mplus div 2 else Mplus);
          p = decimalExponent R S
      in case List.map_filter
                (\<lambda>k. map_option (\<lambda>s. (k, s)) (candidate R S Mminus Mplus (even m) p k))
                [1..<18] of
           [] \<Rightarrow> ([], p)
         | (k, s) # rest \<Rightarrow>
             (stripZeros (showNat (nat s)), p + int (length (showNat (nat s))) - int k))"

definition formatNumber :: "string \<Rightarrow> int \<Rightarrow> string" where
  "formatNumber ds n =
     (let k = int (length ds)
      in if k \<le> n \<and> n \<le> 21 then ds @ replicate (nat (n - k)) (CHR ''0'')
         else if 0 < n \<and> n \<le> 21 then take (nat n) ds @ ''.'' @ drop (nat n) ds
         else if - 6 < n \<and> n \<le> 0 then ''0.'' @ replicate (nat (- n)) (CHR ''0'') @ ds
         else
           (let exponent = (if n - 1 < 0 then ''-'' else ''+'') @ showNat (nat \<bar>n - 1\<bar>)
            in if k = 1 then ds @ ''e'' @ exponent
               else hd ds # ''.'' @ tl ds @ ''e'' @ exponent))"

definition numberText :: "bool \<Rightarrow> int \<Rightarrow> int \<Rightarrow> string" where
  "numberText negative P Q =
     (case roundDouble P Q of
        Zero \<Rightarrow> ''0''
      | Overflow \<Rightarrow> (if negative then ''-Infinity'' else ''Infinity'')
      | Finite m e \<Rightarrow>
          (if negative then ''-'' else []) @
          (case shortestDigits m e of (ds, n) \<Rightarrow> formatNumber ds n))"

fun nonintText :: "nonint \<Rightarrow> string" where
  "nonintText (Fraction m k) = numberText (m < 0) \<bar>m\<bar> (2 ^ k)"
| "nonintText PlusInfinity = ''Infinity''"
| "nonintText MinusInfinity = ''-Infinity''"
| "nonintText NaN = ''NaN''"

text \<open>
  \<^verbatim>\<open>Number(s)\<close> for a string. White space around the literal is ignored and the empty
  literal is 0. A literal is a run of hexadecimal, octal or binary digits after
  \<^verbatim>\<open>0x\<close>, \<^verbatim>\<open>0o\<close> or \<^verbatim>\<open>0b\<close>, or an optionally signed \<^verbatim>\<open>Infinity\<close> or decimal
  literal with an optional fraction and exponent. Its exact value is rounded to the
  nearest double. Anything else is NaN.
\<close>

definition radixValue :: "string \<Rightarrow> string \<Rightarrow> string \<Rightarrow> int option" where
  "radixValue lower upper ds =
     (if ds \<noteq> [] \<and> list_all (\<lambda>c. c \<in> set lower \<or> c \<in> set upper) ds
      then Some (foldl (\<lambda>acc c. int (length lower) * acc +
                    int (length (takeWhile (\<lambda>d. d \<noteq> c) (if c \<in> set lower then lower else upper))))
                  0 ds)
      else None)"

fun nonDecimalLiteral :: "string \<Rightarrow> int option" where
  "nonDecimalLiteral (z # x # ds) =
     (if z \<noteq> CHR ''0'' then None
      else if x = CHR ''x'' \<or> x = CHR ''X'' then radixValue ''0123456789abcdef'' ''0123456789ABCDEF'' ds
      else if x = CHR ''o'' \<or> x = CHR ''O'' then radixValue ''01234567'' ''01234567'' ds
      else if x = CHR ''b'' \<or> x = CHR ''B'' then radixValue ''01'' ''01'' ds
      else None)"
| "nonDecimalLiteral t = None"

fun exponentPart :: "string \<Rightarrow> int option" where
  "exponentPart [] = Some 0"
| "exponentPart (c # r) =
     (if c \<noteq> CHR ''e'' \<and> c \<noteq> CHR ''E'' then None
      else let negative = (r \<noteq> [] \<and> hd r = CHR ''-'');
               ds = (if r \<noteq> [] \<and> (hd r = CHR ''-'' \<or> hd r = CHR ''+'') then tl r else r)
           in if ds \<noteq> [] \<and> list_all isDigit ds
              then Some (if negative then - int (decimalValue ds) else int (decimalValue ds))
              else None)"

definition decimalLiteral :: "string \<Rightarrow> (int \<times> int) option" where
  "decimalLiteral t =
     (let whole = takeWhile isDigit t;
          r1 = dropWhile isDigit t;
          dot = (r1 \<noteq> [] \<and> hd r1 = CHR ''.'');
          fraction = (if dot then takeWhile isDigit (tl r1) else []);
          r2 = (if dot then dropWhile isDigit (tl r1) else r1)
      in if whole = [] \<and> fraction = [] then None
         else case exponentPart r2 of
                None \<Rightarrow> None
              | Some x \<Rightarrow>
                  (let mantissa = int (decimalValue (whole @ fraction));
                       scale = x - int (length fraction)
                   in Some (if 0 \<le> scale then (mantissa * 10 ^ nat scale, 1)
                            else (mantissa, 10 ^ nat (- scale)))))"

definition numberOfString :: "string \<Rightarrow> jsval" where
  "numberOfString s =
     (let t = trim s
      in if t = [] then JNum 0
         else case nonDecimalLiteral t of
                Some v \<Rightarrow> numberValue False v 1
              | None \<Rightarrow>
                  (let negative = (hd t = CHR ''-'');
                       u = (if hd t = CHR ''-'' \<or> hd t = CHR ''+'' then tl t else t)
                   in if u = ''Infinity''
                      then JNonInt (if negative then MinusInfinity else PlusInfinity)
                      else case decimalLiteral u of
                             Some (P, Q) \<Rightarrow> numberValue negative P Q
                           | None \<Rightarrow> JNonInt NaN))"

subsection \<open>Property access\<close>

text \<open>
  A property key is an array index when it is the canonical decimal text of a number
  below \<open>2^32 - 1\<close>. Such keys address the elements of arrays and strings, and an
  object enumerates them first, in ascending order.
\<close>

definition arrayIndex :: "string \<Rightarrow> nat option" where
  "arrayIndex k =
     (if k \<noteq> [] \<and> list_all isDigit k \<and> (k = ''0'' \<or> hd k \<noteq> CHR ''0'')
         \<and> decimalValue k < 4294967295
      then Some (decimalValue k) else None)"

text \<open>
  \<open>lookup v k\<close> is \<^verbatim>\<open>v[k]\<close> for a \<open>v\<close> that is neither \<^verbatim>\<open>null\<close> nor \<^verbatim>\<open>undefined\<close>.
  Only own properties are read: what a parsed value inherits are the built-in methods of
  its prototype, which are functions, none is named by a key the code reads from a
  literal, and \<^verbatim>\<open>JSON.stringify\<close> omits a function wherever one is stored.
\<close>

fun lookup :: "jsval \<Rightarrow> string \<Rightarrow> jsval" where
  "lookup (JObj kvs) k = (case map_of kvs k of Some v \<Rightarrow> v | None \<Rightarrow> JUndefined)"
| "lookup (JArr xs) k =
     (case arrayIndex k of
        Some i \<Rightarrow> if i < length xs then xs ! i else JUndefined
      | None \<Rightarrow> if k = ''length'' then JNum (int (length xs)) else JUndefined)"
| "lookup (JStr s) k =
     (case arrayIndex k of
        Some i \<Rightarrow> if i < length s then JStr [s ! i] else JUndefined
      | None \<Rightarrow> if k = ''length'' then JNum (int (length s)) else JUndefined)"
| "lookup v k = JUndefined"

text \<open>\<^verbatim>\<open>v.k\<close>: a TypeError on \<^verbatim>\<open>null\<close> and \<^verbatim>\<open>undefined\<close>.\<close>

definition getProp :: "jsval \<Rightarrow> string \<Rightarrow> js_error + jsval" where
  "getProp v k =
     (if nullish v then Inl (TypeError (''Cannot read properties of null or undefined: '' @ k))
      else Inr (lookup v k))"

text \<open>\<^verbatim>\<open>v?.k\<close>\<close>

definition optProp :: "jsval \<Rightarrow> string \<Rightarrow> jsval" where
  "optProp v k = (if nullish v then JUndefined else lookup v k)"

text \<open>
  \<^verbatim>\<open>Object.entries(v)\<close>, \<^verbatim>\<open>Object.keys(v)\<close> and \<^verbatim>\<open>Object.values(v)\<close> for a
  \<open>v\<close> that is neither \<^verbatim>\<open>null\<close> nor \<^verbatim>\<open>undefined\<close>: an array and a string
  enumerate their indices, a number and a boolean nothing.
\<close>

fun ownEntries :: "jsval \<Rightarrow> (string \<times> jsval) list" where
  "ownEntries (JObj kvs) = kvs"
| "ownEntries (JArr xs) = zip (map showNat [0..<length xs]) xs"
| "ownEntries (JStr s) = zip (map showNat [0..<length s]) (map (\<lambda>c. JStr [c]) s)"
| "ownEntries v = []"

definition ownKeys :: "jsval \<Rightarrow> string list" where
  "ownKeys v = map fst (ownEntries v)"

definition objectEntries :: "jsval \<Rightarrow> js_error + (string \<times> jsval) list" where
  "objectEntries v =
     (if nullish v then Inl (TypeError ''Cannot convert undefined or null to object'')
      else Inr (ownEntries v))"

text \<open>
  \<^verbatim>\<open>obj[k] = v\<close> on an object the code has built from \<^verbatim>\<open>{}\<close>. The key
  \<^verbatim>\<open>__proto__\<close> reaches the setter inherited from \<^verbatim>\<open>Object.prototype\<close> and creates
  no own property. A key that exists keeps its place; a new array index is placed among
  the array indices, which come first in ascending order; any other new key is appended.
\<close>

fun insertIndex :: "nat \<Rightarrow> string \<Rightarrow> jsval \<Rightarrow> (string \<times> jsval) list \<Rightarrow> (string \<times> jsval) list" where
  "insertIndex i k v [] = [(k, v)]"
| "insertIndex i k v ((k', v') # rest) =
     (case arrayIndex k' of
        Some j \<Rightarrow> if j < i then (k', v') # insertIndex i k v rest
                  else (k, v) # (k', v') # rest
      | None \<Rightarrow> (k, v) # (k', v') # rest)"

definition setProp :: "(string \<times> jsval) list \<Rightarrow> string \<Rightarrow> jsval \<Rightarrow> (string \<times> jsval) list" where
  "setProp kvs k v =
     (if k = ''__proto__'' then kvs
      else if k \<in> set (map fst kvs) then map (\<lambda>(k', v'). if k' = k then (k', v) else (k', v')) kvs
      else case arrayIndex k of
             Some i \<Rightarrow> insertIndex i k v kvs
           | None \<Rightarrow> kvs @ [(k, v)])"

text \<open>
  \<^verbatim>\<open>String(v)\<close>, as a template literal and \<^verbatim>\<open>join\<close> apply it. An array is its
  elements joined by commas, \<^verbatim>\<open>null\<close> and \<^verbatim>\<open>undefined\<close> elements giving the empty
  text. An object is \<^verbatim>\<open>[object Object]\<close>, unless it has an own property
  \<^verbatim>\<open>toString\<close>: that one hides the inherited method, is no function, and the
  conversion ends in a TypeError.
\<close>

fun toStringJS :: "jsval \<Rightarrow> js_error + string"
  and toStringElements :: "jsval list \<Rightarrow> js_error + string list" where
  "toStringJS JUndefined = Inr ''undefined''"
| "toStringJS JNull = Inr ''null''"
| "toStringJS (JBool b) = Inr (if b then ''true'' else ''false'')"
| "toStringJS (JNum n) = Inr (numberText (n < 0) \<bar>n\<bar> 1)"
| "toStringJS (JNonInt x) = Inr (nonintText x)"
| "toStringJS (JStr s) = Inr s"
| "toStringJS (JArr xs) = bindE (toStringElements xs) (\<lambda>ss. Inr (joinWith '','' ss))"
| "toStringJS (JObj kvs) =
     (if ''toString'' \<in> set (map fst kvs)
      then Inl (TypeError ''Cannot convert object to primitive value'')
      else Inr ''[object Object]'')"
| "toStringElements [] = Inr []"
| "toStringElements (x # xs) =
     bindE (if nullish x then Inr [] else toStringJS x)
       (\<lambda>s. bindE (toStringElements xs) (\<lambda>ss. Inr (s # ss)))"

text \<open>\<^verbatim>\<open>v.join(sep)\<close>: only an array has the method.\<close>

fun joinJS :: "jsval \<Rightarrow> string \<Rightarrow> js_error + string" where
  "joinJS (JArr xs) sep = bindE (toStringElements xs) (\<lambda>ss. Inr (joinWith sep ss))"
| "joinJS v sep = Inl (TypeError ''join is not a function'')"

section \<open>The simplifier\<close>

subsection \<open>\<^verbatim>\<open>parseSpec\<close>\<close>

text \<open>
  \<^verbatim>\<open>JSON.parse\<close> and the loader of the YAML library are not code of the tool: they are
  parameters, each a function from the text to the parsed value or to the message of the
  exception it throws. \<open>yamlParser\<close> is the component's state of that name: \<open>None\<close>
  until the library has been loaded.
\<close>

type_synonym parser = "string \<Rightarrow> string + jsval"

definition parseSpec :: "parser \<Rightarrow> parser option \<Rightarrow> string \<Rightarrow> js_error + jsval" where
  "parseSpec JSON_parse yamlParser text =
     (case JSON_parse text of
        Inr parsed \<Rightarrow> Inr parsed
      | Inl e \<Rightarrow>
          (case yamlParser of
             None \<Rightarrow> Inl ParserUnavailable
           | Some yaml_load \<Rightarrow>
               (case yaml_load text of
                  Inr parsed \<Rightarrow> Inr parsed
                | Inl yamlError \<Rightarrow> Inl (FormatError yamlError))))"

subsection \<open>\<^verbatim>\<open>cleanSchemaRef\<close>\<close>

definition schemaPrefix :: string where
  "schemaPrefix = ''#/components/schemas/''"

fun cleanSchemaRef :: "jsval \<Rightarrow> jsval" where
  "cleanSchemaRef (JStr s) = (if s = [] then JStr s else JStr (removeFirst schemaPrefix s))"
| "cleanSchemaRef v = v"

subsection \<open>\<^verbatim>\<open>collectReferencedSchemas\<close>\<close>

text \<open>\<^verbatim>\<open>refs\<close> is a \<^verbatim>\<open>Set\<close>: it keeps the order of first insertion.\<close>

definition setAdd :: "string list \<Rightarrow> string \<Rightarrow> string list" where
  "setAdd refs x = (if x \<in> set refs then refs else refs @ [x])"

fun addRef :: "jsval \<Rightarrow> string list \<Rightarrow> string list" where
  "addRef (JStr s) refs =
     (if s \<noteq> [] \<and> startsWith s schemaPrefix then setAdd refs (removeFirst schemaPrefix s)
      else refs)"
| "addRef v refs = refs"

text \<open>
  \<open>walkObject\<close> with the set threaded through. \<open>walkEntries\<close> and \<open>walkElements\<close>
  are its loop over \<^verbatim>\<open>Object.values(obj)\<close>, for an object and for an array;
  \<^verbatim>\<open>value.forEach(walkObject)\<close> is the \<open>fold\<close>.
\<close>

fun walkObject :: "jsval \<Rightarrow> string list \<Rightarrow> string list"
  and walkEntries :: "(string \<times> jsval) list \<Rightarrow> string list \<Rightarrow> string list"
  and walkElements :: "jsval list \<Rightarrow> string list \<Rightarrow> string list" where
  "walkObject (JObj kvs) refs =
     walkEntries kvs
       (if truthy (lookup (JObj kvs) ''$ref'') then addRef (lookup (JObj kvs) ''$ref'') refs
        else refs)"
| "walkObject (JArr xs) refs = walkElements xs refs"
| "walkObject v refs = refs"
| "walkEntries [] refs = refs"
| "walkEntries ((k, v) # rest) refs =
     walkEntries rest
       (case v of
          JArr ys \<Rightarrow> fold walkObject ys refs
        | _ \<Rightarrow> if typeofObject v then walkObject v refs else refs)"
| "walkElements [] refs = refs"
| "walkElements (v # rest) refs =
     walkElements rest
       (case v of
          JArr ys \<Rightarrow> fold walkObject ys refs
        | _ \<Rightarrow> if typeofObject v then walkObject v refs else refs)"

definition seedSchemas :: "string list" where
  "seedSchemas = [''Error'', ''Granularity'', ''AggregationFunction'', ''ResponseFormat'']"

definition addSeed :: "jsval \<Rightarrow> string list \<Rightarrow> string \<Rightarrow> string list" where
  "addSeed spec refs schema =
     (if truthy (optProp (optProp (lookup spec ''components'') ''schemas'') schema)
      then setAdd refs schema else refs)"

definition collectReferencedSchemas :: "jsval \<Rightarrow> js_error + string list" where
  "collectReferencedSchemas spec =
     bindE (getProp spec ''paths'') (\<lambda>paths.
       Inr (foldl (addSeed spec) (if truthy paths then walkObject paths [] else []) seedSchemas))"

subsection \<open>\<^verbatim>\<open>simplifySchema\<close>\<close>

text \<open>The fields that are kept as they are, in the order the code assigns them.\<close>

definition keptFields :: "jsval \<Rightarrow> (string \<times> jsval) list" where
  "keptFields schema =
     (if truthy (lookup schema ''type'') then [(''type'', lookup schema ''type'')] else []) @
     (if truthy (lookup schema ''format'') then [(''format'', lookup schema ''format'')] else []) @
     (if truthy (lookup schema ''enum'') then [(''enum'', lookup schema ''enum'')] else []) @
     (if truthy (lookup schema ''required'') then [(''required'', lookup schema ''required'')]
      else []) @
     (if truthy (lookup schema ''$ref'') then [(''$ref'', cleanSchemaRef (lookup schema ''$ref''))]
      else [])"

text \<open>
  The recursion descends into \<^verbatim>\<open>schema.properties\<close> and \<^verbatim>\<open>schema.items\<close>, which
  are values stored in \<open>schema\<close>; \<open>weight\<close> is the measure that decreases. The
  entries of a string are its one-character strings, hence the weight of a string.
\<close>

fun weight :: "jsval \<Rightarrow> nat" where
  "weight (JStr s) = length s"
| "weight (JArr xs) = Suc (sum_list (map weight xs))"
| "weight (JObj kvs) = Suc (sum_list (map (\<lambda>kv. weight (snd kv)) kvs))"
| "weight v = 0"

text \<open>
  \<open>simplifyProperties\<close> is the loop over \<^verbatim>\<open>Object.entries(schema.properties)\<close>,
  with \<^verbatim>\<open>simplified.properties\<close> as its second argument. The template literal of
  the type-and-format case converts both fields to strings, which can throw.
\<close>

function simplifySchema :: "jsval \<Rightarrow> js_error + jsval"
  and simplifyProperties ::
    "(string \<times> jsval) list \<Rightarrow> (string \<times> jsval) list \<Rightarrow> js_error + (string \<times> jsval) list" where
  "simplifySchema schema =
     (if \<not> truthy schema \<or> \<not> typeofObject schema then Inr schema
      else if truthy (lookup schema ''type'') \<and> length (ownKeys schema) = 1
      then Inr (lookup schema ''type'')
      else if truthy (lookup schema ''type'') \<and> truthy (lookup schema ''format'')
              \<and> length (ownKeys schema) = 2
      then bindE (toStringJS (lookup schema ''type'')) (\<lambda>t.
           bindE (toStringJS (lookup schema ''format'')) (\<lambda>f.
             Inr (JStr (t @ ''('' @ f @ '')''))))
      else
        bindE (if truthy (lookup schema ''properties'')
               then bindE (simplifyProperties (ownEntries (lookup schema ''properties'')) [])
                      (\<lambda>properties. Inr [(''properties'', JObj properties)])
               else Inr []) (\<lambda>propertiesField.
        bindE (if truthy (lookup schema ''items'')
               then bindE (simplifySchema (lookup schema ''items''))
                      (\<lambda>items. Inr [(''items'', items)])
               else Inr []) (\<lambda>itemsField.
          Inr (JObj (keptFields schema @ propertiesField @ itemsField)))))"
| "simplifyProperties [] simplified = Inr simplified"
| "simplifyProperties ((key, prop) # rest) simplified =
     bindE (simplifySchema prop) (\<lambda>simplifiedProp.
       simplifyProperties rest
         (case simplifiedProp of
            JStr t \<Rightarrow> setProp simplified (t @ '' '' @ key) (JBool True)
          | _ \<Rightarrow> setProp simplified key simplifiedProp))"
  by pat_completeness simp_all
termination
proof -
  let ?W = "\<lambda>kvs. sum_list (map (\<lambda>kv. weight (snd kv)) kvs)"
  have stored: "weight v \<le> ?W kvs" if "map_of kvs k = Some v" for kvs :: "(string \<times> jsval) list" and k v
    using that by (induction kvs) (auto split: if_splits)
  have element: "weight (xs ! i) \<le> sum_list (map weight xs)" if "i < length xs" for xs i
    using that by (simp add: member_le_sum_list)
  have field: "weight (lookup schema k) < weight schema"
    if "truthy schema" "typeofObject schema" for schema k
    using that by (cases schema) (auto simp: less_Suc_eq_le stored element split: option.splits)
  have chars: "?W (zip ks (map (\<lambda>c. JStr [c]) s)) \<le> length s" for ks :: "string list" and s
  proof (induction s arbitrary: ks)
    case Nil
    then show ?case by simp
  next
    case (Cons c s)
    then show ?case by (cases ks) (auto simp: le_SucI)
  qed
  have elements: "?W (zip ks xs) \<le> sum_list (map weight xs)" for ks :: "string list" and xs
  proof (induction xs arbitrary: ks)
    case Nil
    then show ?case by simp
  next
    case (Cons x xs)
    then show ?case by (cases ks) (auto simp: le_SucI add_le_mono trans_le_add2)
  qed
  have entries: "?W (ownEntries p) \<le> weight p" for p
    by (cases p) (auto simp: chars elements le_SucI)
  have positive: "0 < ?W rest \<or> (\<forall>n\<in>set rest. weight (snd n) = 0)"
    for rest :: "(string \<times> jsval) list"
    by (induction rest) auto
  show ?thesis
  proof (relation "measures
      [\<lambda>x. case x of Inl schema \<Rightarrow> weight schema | Inr (es, simplified) \<Rightarrow> ?W es,
       \<lambda>x. case x of Inl schema \<Rightarrow> 0 | Inr (es, simplified) \<Rightarrow> Suc (length es)]",
      goal_cases)
    case 1
    then show ?case by simp
  next
    case (2 schema)
    then show ?case
      using entries [of "lookup schema ''properties''"] field [of schema "''properties''"]
      by simp
  next
    case (3 schema)
    then show ?case using field [of schema "''items''"] by simp
  next
    case 4
    then show ?case by (simp add: positive)
  next
    case 5
    then show ?case by auto
  qed
qed

declare simplifySchema.simps [simp del]

subsection \<open>\<^verbatim>\<open>truncateDescription\<close>\<close>

text \<open>The second argument is \<^verbatim>\<open>maxLength\<close>, which every call leaves at its default 100.\<close>

fun truncateDescription :: "jsval \<Rightarrow> nat \<Rightarrow> jsval" where
  "truncateDescription (JStr desc) maxLength =
     (if desc = [] then JUndefined
      else let cleaned = trim (collapseWhitespace desc)
           in if length cleaned \<le> maxLength then JStr cleaned
              else JStr (take maxLength cleaned @ ''...''))"
| "truncateDescription desc maxLength = JUndefined"

subsection \<open>\<^verbatim>\<open>simplifySpec\<close>: one endpoint\<close>

definition httpMethods :: "string list" where
  "httpMethods = [''get'', ''post'', ''put'', ''patch'', ''delete'', ''head'', ''options'']"

text \<open>
  \<^verbatim>\<open>`${p.name}:${p.schema?.type || p.type || 'unknown'}`\<close>, followed by \<^verbatim>\<open>?\<close>
  when \<^verbatim>\<open>p.required === false\<close>. Here \<open>p\<close> has passed the filter, so that it
  is neither \<^verbatim>\<open>null\<close> nor \<^verbatim>\<open>undefined\<close>.
\<close>

definition paramBase :: "jsval \<Rightarrow> js_error + string" where
  "paramBase p =
     bindE (toStringJS (lookup p ''name'')) (\<lambda>name.
     bindE (toStringJS (orElse (orElse (optProp (lookup p ''schema'') ''type'') (lookup p ''type''))
                          (JStr ''unknown''))) (\<lambda>type.
       Inr (name @ '':'' @ type @ (if lookup p ''required'' = JBool False then ''?'' else []))))"

definition pathParam :: "jsval \<Rightarrow> js_error + jsval" where
  "pathParam p = bindE (paramBase p) (\<lambda>paramStr. Inr (JStr paramStr))"

definition queryParam :: "jsval \<Rightarrow> js_error + jsval" where
  "queryParam p =
     bindE (paramBase p) (\<lambda>paramStr.
     bindE (if truthy (optProp (lookup p ''schema'') ''format'')
            then bindE (toStringJS (optProp (lookup p ''schema'') ''format''))
                   (\<lambda>format. Inr (paramStr @ ''('' @ format @ '')''))
            else Inr paramStr) (\<lambda>paramStr.
     bindE (if truthy (optProp (lookup p ''schema'') ''enum'')
            then bindE (joinJS (optProp (lookup p ''schema'') ''enum'') ''|'')
                   (\<lambda>joined. Inr (paramStr @ ''['' @ joined @ '']''))
            else Inr paramStr) (\<lambda>paramStr.
       Inr (JStr paramStr))))"

text \<open>\<^verbatim>\<open>parameters.filter(p => p.in === location)\<close>\<close>

fun filterByIn :: "string \<Rightarrow> jsval list \<Rightarrow> js_error + jsval list" where
  "filterByIn location [] = Inr []"
| "filterByIn location (p # ps) =
     bindE (getProp p ''in'') (\<lambda>v.
     bindE (filterByIn location ps) (\<lambda>kept.
       Inr (if v = JStr location then p # kept else kept)))"

text \<open>The fields \<^verbatim>\<open>pp\<close> and \<^verbatim>\<open>qp\<close>. Only an array has \<^verbatim>\<open>filter\<close>.\<close>

definition parameterFields :: "jsval \<Rightarrow> js_error + (string \<times> jsval) list" where
  "parameterFields operation =
     (if \<not> truthy (lookup operation ''parameters'') then Inr []
      else case lookup operation ''parameters'' of
        JArr ps \<Rightarrow>
          bindE (filterByIn ''path'' ps) (\<lambda>pathParams.
          bindE (filterByIn ''query'' ps) (\<lambda>queryParams.
          bindE (if pathParams \<noteq> []
                 then bindE (mapE pathParam pathParams) (\<lambda>pp. Inr [(''pp'', JArr pp)])
                 else Inr []) (\<lambda>ppField.
          bindE (if queryParams \<noteq> []
                 then bindE (mapE queryParam queryParams) (\<lambda>qp. Inr [(''qp'', JArr qp)])
                 else Inr []) (\<lambda>qpField.
            Inr (ppField @ qpField)))))
      | _ \<Rightarrow> Inl (TypeError ''operation.parameters.filter is not a function''))"

definition requestField :: "jsval \<Rightarrow> (string \<times> jsval) list" where
  "requestField operation =
     (if truthy (lookup operation ''requestBody'')
      then let content = lookup (lookup operation ''requestBody'') ''content'';
               jsonContent = optProp content ''application/json'';
               ref = optProp (optProp jsonContent ''schema'') ''$ref''
           in if truthy ref then [(''req'', cleanSchemaRef ref)] else []
      else [])"

definition responseField :: "jsval \<Rightarrow> (string \<times> jsval) list" where
  "responseField operation =
     (let responses = lookup operation ''responses'';
          okResponse = orElse (optProp responses ''200'') (optProp responses ''201'');
          ref = optProp (optProp (optProp (optProp okResponse ''content'') ''application/json'')
                           ''schema'') ''$ref''
      in if truthy ref then [(''res'', cleanSchemaRef ref)] else [])"

text \<open>\<^verbatim>\<open>Object.keys(responses || {}).map(Number).filter(c => !isNaN(c))\<close>\<close>

definition statusCodes :: "jsval \<Rightarrow> jsval list" where
  "statusCodes operation =
     (let responses = lookup operation ''responses''
      in filter (\<lambda>c. c \<noteq> JNonInt NaN)
           (map numberOfString (if truthy responses then ownKeys responses else [])))"

text \<open>
  The body of the inner loop for a method that is in the list: it builds the descriptor.
  The first read, \<^verbatim>\<open>operation.summary\<close>, throws when the operation is \<^verbatim>\<open>null\<close>.
\<close>

definition endpoint :: "string \<Rightarrow> string \<Rightarrow> jsval \<Rightarrow> js_error + jsval" where
  "endpoint method path operation =
     bindE (getProp operation ''summary'') (\<lambda>summary.
       let desc = truncateDescription (orElse summary (lookup operation ''description'')) 100
       in bindE (parameterFields operation) (\<lambda>parameters.
            Inr (JObj ([(''m'', JStr (toLowerCase method)), (''p'', JStr path)] @
                       (if truthy desc then [(''desc'', desc)] else []) @
                       parameters @
                       requestField operation @
                       responseField operation @
                       [(''codes'', JArr (statusCodes operation))]))))"

subsection \<open>\<^verbatim>\<open>simplifySpec\<close>: the document\<close>

text \<open>The two nested loops over \<^verbatim>\<open>Object.entries\<close>; the result is \<^verbatim>\<open>simplified.endpoints\<close>.\<close>

fun pathItemEndpoints :: "string \<Rightarrow> (string \<times> jsval) list \<Rightarrow> js_error + jsval list" where
  "pathItemEndpoints path [] = Inr []"
| "pathItemEndpoints path ((method, operation) # rest) =
     (if method \<notin> set httpMethods then pathItemEndpoints path rest
      else bindE (endpoint method path operation) (\<lambda>e.
           bindE (pathItemEndpoints path rest) (\<lambda>es. Inr (e # es))))"

fun pathsEndpoints :: "(string \<times> jsval) list \<Rightarrow> js_error + jsval list" where
  "pathsEndpoints [] = Inr []"
| "pathsEndpoints ((path, pathItem) # rest) =
     bindE (objectEntries pathItem) (\<lambda>operations.
     bindE (pathItemEndpoints path operations) (\<lambda>es.
     bindE (pathsEndpoints rest) (\<lambda>es'. Inr (es @ es'))))"

definition hostField :: "jsval \<Rightarrow> (string \<times> jsval) list" where
  "hostField spec =
     (let url = optProp (optProp (lookup spec ''servers'') ''0'') ''url''
      in if truthy url then [(''host'', url)]
         else if truthy (lookup spec ''host'') then [(''host'', lookup spec ''host'')]
         else [])"

definition secField :: "jsval \<Rightarrow> (string \<times> jsval) list" where
  "secField spec =
     (let secSchemes = orElse (optProp (lookup spec ''components'') ''securitySchemes'')
                         (lookup spec ''securityDefinitions'')
      in if truthy secSchemes then [(''sec'', JArr (map JStr (ownKeys secSchemes)))] else [])"

text \<open>
  The loop over \<^verbatim>\<open>referencedSchemas\<close>, with \<^verbatim>\<open>simplified.schemas\<close> as third
  argument; \<open>schemas\<close> is \<^verbatim>\<open>spec.components.schemas\<close>.
\<close>

fun referencedEntries ::
  "jsval \<Rightarrow> string list \<Rightarrow> (string \<times> jsval) list \<Rightarrow> js_error + (string \<times> jsval) list" where
  "referencedEntries schemas [] simplified = Inr simplified"
| "referencedEntries schemas (schemaName # rest) simplified =
     (if truthy (lookup schemas schemaName)
      then bindE (simplifySchema (lookup schemas schemaName)) (\<lambda>s.
             referencedEntries schemas rest (setProp simplified schemaName s))
      else referencedEntries schemas rest simplified)"

definition schemasField :: "jsval \<Rightarrow> js_error + (string \<times> jsval) list" where
  "schemasField spec =
     bindE (collectReferencedSchemas spec) (\<lambda>referencedSchemas.
       let schemas = optProp (lookup spec ''components'') ''schemas''
       in if referencedSchemas \<noteq> [] \<and> truthy schemas
          then bindE (referencedEntries schemas referencedSchemas [])
                 (\<lambda>entries. Inr [(''schemas'', JObj entries)])
          else Inr [])"

text \<open>
  The first read, \<^verbatim>\<open>spec.servers\<close>, throws when the document is \<^verbatim>\<open>null\<close> or
  \<^verbatim>\<open>undefined\<close>; the reads of \<open>spec\<close> after it cannot.
\<close>

definition simplifySpec :: "jsval \<Rightarrow> js_error + jsval" where
  "simplifySpec spec =
     bindE (getProp spec ''servers'') (\<lambda>servers.
     bindE (if truthy (lookup spec ''paths'')
            then pathsEndpoints (ownEntries (lookup spec ''paths''))
            else Inr []) (\<lambda>endpoints.
     bindE (schemasField spec) (\<lambda>schemas.
       Inr (JObj (hostField spec @ secField spec @ [(''endpoints'', JArr endpoints)] @ schemas)))))"

subsection \<open>\<^verbatim>\<open>processSpec\<close>\<close>

text \<open>
  The state of the component that \<^verbatim>\<open>processSpec\<close> writes. \<^verbatim>\<open>inputSpec\<close> and
  \<^verbatim>\<open>yamlParser\<close> are read only. \<^verbatim>\<open>JSON.stringify\<close> is a parameter, as the parsers
  are.
\<close>

record state =
  outputSpec :: string
  error :: string
  isProcessing :: bool

definition processSpec ::
  "parser \<Rightarrow> (jsval \<Rightarrow> string) \<Rightarrow> string \<Rightarrow> parser option \<Rightarrow> state \<Rightarrow> state" where
  "processSpec JSON_parse JSON_stringify inputSpec yamlParser st =
     (if trim inputSpec = [] then st\<lparr>outputSpec := [], error := []\<rparr>
      else if yamlParser = None
      then st\<lparr>error := ''YAML parser not loaded yet, please wait...''\<rparr>
      else
        (case bindE (parseSpec JSON_parse yamlParser inputSpec) simplifySpec of
           Inr simplified \<Rightarrow>
             st\<lparr>isProcessing := False, error := [], outputSpec := JSON_stringify simplified\<rparr>
         | Inl err \<Rightarrow>
             st\<lparr>isProcessing := False,
                error := ''Error processing spec: '' @ message err,
                outputSpec := []\<rparr>))"

section \<open>Concrete inputs\<close>

text \<open>The document of the specification's scenario, as \<^verbatim>\<open>JSON.parse\<close> returns it.\<close>

definition scenarioDocument :: jsval where
  "scenarioDocument =
     JObj [(''openapi'', JStr ''3.0.0''),
           (''paths'', JObj [(''/pets'', JObj [(''get'', JObj
              [(''summary'', JStr ''List all pets''),
               (''parameters'', JArr [JObj [(''name'', JStr ''limit''), (''in'', JStr ''query''),
                  (''required'', JBool False),
                  (''schema'', JObj [(''type'', JStr ''integer''), (''format'', JStr ''int32'')])]]),
               (''responses'', JObj [(''200'', JObj [(''content'', JObj [(''application/json'',
                  JObj [(''schema'', JObj [(''$ref'', JStr ''#/components/schemas/Pets'')])])])])])])])]),
           (''components'', JObj [(''schemas'', JObj
              [(''Pets'', JObj [(''type'', JStr ''array''),
                               (''items'', JObj [(''$ref'', JStr ''#/components/schemas/Pet'')])]),
               (''Pet'', JObj [(''type'', JStr ''object''), (''required'', JArr [JStr ''id'']),
                              (''properties'', JObj [(''id'', JObj [(''type'', JStr ''integer'')])])])])])]"

text \<open>
  Instances of the parameters for the concrete runs below. They agree with
  \<^verbatim>\<open>JSON.parse\<close>, the YAML loader and \<^verbatim>\<open>JSON.stringify\<close> on the texts and values
  those runs use.
\<close>

definition sampleJSONparse :: parser where
  "sampleJSONparse text =
     (if text = ''{}'' then Inr (JObj [])
      else if text = ''null'' then Inr JNull
      else Inl ''Unexpected token'')"

definition sampleYAMLload :: parser where
  "sampleYAMLload text =
     (if text = ''{}'' then Inr (JObj [])
      else if text = ''null'' then Inr JNull
      else if text = ''{'' then Inl ''unexpected end of the stream within a flow collection''
      else Inr (JStr text))"

definition sampleStringify :: "jsval \<Rightarrow> string" where
  \<open>sampleStringify v = (if v = JObj [(''endpoints'', JArr [])] then ''{"endpoints":[]}'' else ''{}'')\<close>

definition initialState :: state where
  "initialState = \<lparr>outputSpec = [], error = [], isProcessing = False\<rparr>"

text \<open>
  Two variants of the scenario: the operation refers to the schema \<^verbatim>\<open>Pets\<close>, and the
  document has no \<^verbatim>\<open>components\<close> at all, or has \<^verbatim>\<open>null\<close> stored under that name.
\<close>

definition listPetsPaths :: jsval where
  "listPetsPaths =
     JObj [(''/pets'', JObj [(''get'', JObj [(''responses'', JObj [(''200'', JObj
       [(''content'', JObj [(''application/json'', JObj [(''schema'',
          JObj [(''$ref'', JStr ''#/components/schemas/Pets'')])])])])])])])]"

definition danglingDocument :: jsval where
  "danglingDocument = JObj [(''paths'', listPetsPaths)]"

definition nullSchemaDocument :: jsval where
  "nullSchemaDocument =
     JObj [(''paths'', listPetsPaths),
           (''components'', JObj [(''schemas'', JObj [(''Pets'', JNull)])])]"

section \<open>The references under a subtree, in the words of the specification\<close>

text \<open>
  The specification describes the collector as a visit of every node reachable from
  \<^verbatim>\<open>paths\<close>, arrays element-wise and objects value-wise, that records the name of each
  \<^verbatim>\<open>$ref\<close> with the internal prefix. \<open>reachableNodes\<close> lists those nodes and
  \<open>referencedUnder\<close> is the set of names so described; the code's \<open>walkObject\<close> is
  compared with it.
\<close>

fun reachableNodes :: "jsval \<Rightarrow> jsval list" where
  "reachableNodes (JObj kvs) = JObj kvs # concat (map (\<lambda>kv. reachableNodes (snd kv)) kvs)"
| "reachableNodes (JArr xs) = JArr xs # concat (map reachableNodes xs)"
| "reachableNodes v = [v]"

definition referencedUnder :: "jsval \<Rightarrow> string set" where
  "referencedUnder v =
     {name. \<exists>node\<in>set (reachableNodes v). lookup node ''$ref'' = JStr (schemaPrefix @ name)}"

section \<open>Evaluation of the model\<close>

lemma simplifySchema_JObj:
  "simplifySchema (JObj kvs) =
     (if truthy (lookup (JObj kvs) ''type'') \<and> length (ownKeys (JObj kvs)) = 1
      then Inr (lookup (JObj kvs) ''type'')
      else if truthy (lookup (JObj kvs) ''type'') \<and> truthy (lookup (JObj kvs) ''format'')
              \<and> length (ownKeys (JObj kvs)) = 2
      then bindE (toStringJS (lookup (JObj kvs) ''type'')) (\<lambda>t.
           bindE (toStringJS (lookup (JObj kvs) ''format'')) (\<lambda>f.
             Inr (JStr (t @ ''('' @ f @ '')''))))
      else
        bindE (if truthy (lookup (JObj kvs) ''properties'')
               then bindE (simplifyProperties (ownEntries (lookup (JObj kvs) ''properties'')) [])
                      (\<lambda>properties. Inr [(''properties'', JObj properties)])
               else Inr []) (\<lambda>propertiesField.
        bindE (if truthy (lookup (JObj kvs) ''items'')
               then bindE (simplifySchema (lookup (JObj kvs) ''items''))
                      (\<lambda>items. Inr [(''items'', items)])
               else Inr []) (\<lambda>itemsField.
          Inr (JObj (keptFields (JObj kvs) @ propertiesField @ itemsField)))))"
  by (subst simplifySchema.simps) simp

lemma simplifySchema_primitive:
  "\<not> truthy v \<or> \<not> typeofObject v \<Longrightarrow> simplifySchema v = Inr v"
  by (subst simplifySchema.simps) simp

lemmas eval_defs = simplifySpec_def getProp_def optProp_def orElse_def hostField_def secField_def
  schemasField_def collectReferencedSchemas_def addSeed_def seedSchemas_def setAdd_def
  objectEntries_def httpMethods_def endpoint_def parameterFields_def requestField_def
  responseField_def statusCodes_def paramBase_def pathParam_def queryParam_def
  toLowerCase_def toLowerChar_def numberOfString_def trim_def isWhiteSpace_def
  isDigit_def digits_def decimalValue_def arrayIndex_def ownKeys_def keptFields_def
  setProp_def schemaPrefix_def startsWith_def simplifySchema_JObj
  numberValue_def decimalLiteral_def

lemma trim_blank:
  assumes "\<forall>c\<in>set s. isWhiteSpace c"
  shows "trim s = []"
proof -
  have leading: "dropWhile isWhiteSpace s = []"
    using assms by (simp add: dropWhile_eq_Nil_conv)
  show ?thesis unfolding trim_def leading by simp
qed

lemma simplifySpec_empty: "simplifySpec (JObj []) = Inr (JObj [(''endpoints'', JArr [])])"
  by (simp add: eval_defs)

subsection \<open>White space and descriptions\<close>

lemma collapse_blank:
  assumes "s \<noteq> []" and "\<forall>c\<in>set s. isWhiteSpace c"
  shows "collapseWhitespace s = '' ''"
proof (cases s)
  case Nil
  with assms show ?thesis by simp
next
  case (Cons c cs)
  with assms have rest: "dropWhile isWhiteSpace cs = []"
    by (simp add: dropWhile_eq_Nil_conv)
  from Cons assms have "isWhiteSpace c" by simp
  with Cons show ?thesis unfolding Cons by (simp add: rest)
qed

lemma collapse_solid: "\<forall>c\<in>set s. \<not> isWhiteSpace c \<Longrightarrow> collapseWhitespace s = s"
  by (induction s) auto

lemma trim_solid:
  assumes "\<forall>c\<in>set s. \<not> isWhiteSpace c"
  shows "trim s = s"
proof -
  have keep: "dropWhile isWhiteSpace xs = xs" if "\<forall>c\<in>set xs. \<not> isWhiteSpace c" for xs
    using that by (cases xs) auto
  have "dropWhile isWhiteSpace (rev s) = rev s"
    using assms by (intro keep) simp
  then show ?thesis using keep [OF assms] by (simp add: trim_def)
qed

lemma truncate_bound: "truncateDescription v n = JStr t \<Longrightarrow> length t \<le> n + 3"
  by (cases v) (auto simp: Let_def split: if_splits)

subsection \<open>The fields of a descriptor\<close>

lemma bindE_Inr_iff: "bindE m f = Inr y \<longleftrightarrow> (\<exists>x. m = Inr x \<and> f x = Inr y)"
  by (cases m) auto

lemma parameterFields_keys:
  "parameterFields operation = Inr ps \<Longrightarrow> set (map fst ps) \<subseteq> {''pp'', ''qp''}"
  unfolding parameterFields_def
  by (cases "lookup operation ''parameters''") (auto simp: bindE_Inr_iff split: if_splits)

lemma requestField_keys: "set (map fst (requestField operation)) \<subseteq> {''req''}"
  by (auto simp: requestField_def Let_def)

lemma responseField_keys: "set (map fst (responseField operation)) \<subseteq> {''res''}"
  by (auto simp: responseField_def Let_def)

lemma blank_description:
  assumes "s \<noteq> []" and "\<forall>c\<in>set s. isWhiteSpace c"
  shows "truncateDescription (JStr s) 100 = JStr []"
proof -
  have "isWhiteSpace (CHR '' '')" by (simp add: isWhiteSpace_def)
  then have "trim '' '' = []" by (intro trim_blank) simp
  with assms show ?thesis by (simp add: collapse_blank)
qed

subsection \<open>The walk finds only references that are under the subtree\<close>

lemma removeFirst_prefix:
  "startsWith s p \<Longrightarrow> removeFirst p s = drop (length p) s"
  by (cases s) (auto simp: startsWith_def)

lemma addRef_sound:
  assumes "name \<in> set (addRef r refs)"
  shows "name \<in> set refs \<or> r = JStr (schemaPrefix @ name)"
proof (cases r)
  case (JStr s)
  show ?thesis
  proof (cases "s \<noteq> [] \<and> startsWith s schemaPrefix")
    case True
    then have "s = schemaPrefix @ drop (length schemaPrefix) s"
      by (metis append_take_drop_id startsWith_def)
    then show ?thesis
      using assms True JStr by (auto simp: setAdd_def removeFirst_prefix split: if_splits)
  next
    case False
    then show ?thesis using assms JStr by auto
  qed
qed (use assms in auto)

lemma referencedUnder_self:
  "lookup v ''$ref'' = JStr (schemaPrefix @ name) \<Longrightarrow> name \<in> referencedUnder v"
  by (cases v) (auto simp: referencedUnder_def)

lemma referencedUnder_field:
  "(k, v) \<in> set kvs \<Longrightarrow> referencedUnder v \<subseteq> referencedUnder (JObj kvs)"
  by (force simp: referencedUnder_def)

lemma referencedUnder_element:
  "v \<in> set xs \<Longrightarrow> referencedUnder v \<subseteq> referencedUnder (JArr xs)"
  by (force simp: referencedUnder_def)

lemma fold_walk_sound:
  assumes "\<And>y refs. y \<in> set ys \<Longrightarrow> set (walkObject y refs) \<subseteq> set refs \<union> referencedUnder y"
  shows "set (fold walkObject ys refs) \<subseteq> set refs \<union> (\<Union>y\<in>set ys. referencedUnder y)"
  using assms
proof (induction ys arbitrary: refs)
  case Nil
  then show ?case by simp
next
  case (Cons y ys)
  have "set (fold walkObject ys (walkObject y refs))
      \<subseteq> set (walkObject y refs) \<union> (\<Union>y\<in>set ys. referencedUnder y)"
    using Cons.prems by (intro Cons.IH) simp
  moreover have "set (walkObject y refs) \<subseteq> set refs \<union> referencedUnder y"
    using Cons.prems by simp
  ultimately show ?case by auto
qed

lemma subset_step: "A \<subseteq> S \<union> U \<Longrightarrow> S \<subseteq> R \<union> T \<Longrightarrow> U \<subseteq> T \<Longrightarrow> A \<subseteq> R \<union> T"
  by blast

lemma subset_cons: "A \<subseteq> S \<union> U \<Longrightarrow> S \<subseteq> R \<union> V \<Longrightarrow> A \<subseteq> R \<union> (V \<union> U)"
  by blast

lemma walk_value_sound:
  assumes array: "\<And>ys y refs'. v = JArr ys \<Longrightarrow> y \<in> set ys \<Longrightarrow>
            set (walkObject y refs') \<subseteq> set refs' \<union> referencedUnder y"
    and object: "\<And>kvs. v = JObj kvs \<Longrightarrow> typeofObject v \<Longrightarrow>
            set (walkObject v refs) \<subseteq> set refs \<union> referencedUnder v"
  shows "set (case v of JArr ys \<Rightarrow> fold walkObject ys refs
               | _ \<Rightarrow> if typeofObject v then walkObject v refs else refs)
           \<subseteq> set refs \<union> referencedUnder v"
proof (cases v)
  case (JArr ys)
  have "set (fold walkObject ys refs) \<subseteq> set refs \<union> (\<Union>y\<in>set ys. referencedUnder y)"
    by (rule fold_walk_sound) (rule array [OF JArr])
  moreover have "(\<Union>y\<in>set ys. referencedUnder y) \<subseteq> referencedUnder (JArr ys)"
    using referencedUnder_element [of _ ys] by blast
  ultimately show ?thesis unfolding JArr by (simp only: jsval.case) blast
next
  case (JObj kvs)
  from object [OF JObj] show ?thesis unfolding JObj by simp
qed simp_all

lemma walk_sound:
  "set (walkObject v refs) \<subseteq> set refs \<union> referencedUnder v"
  "set (walkEntries kvs refs) \<subseteq> set refs \<union> (\<Union>kv\<in>set kvs. referencedUnder (snd kv))"
  "set (walkElements xs refs) \<subseteq> set refs \<union> (\<Union>x\<in>set xs. referencedUnder x)"
proof (induction v refs and kvs refs and xs refs rule: walkObject_walkEntries_walkElements.induct)
  case (1 kvs refs)
  let ?start = "if truthy (lookup (JObj kvs) ''$ref'')
                then addRef (lookup (JObj kvs) ''$ref'') refs else refs"
  have unfold: "walkObject (JObj kvs) refs = walkEntries kvs ?start"
    by (simp only: walkObject.simps)
  have start: "set ?start \<subseteq> set refs \<union> referencedUnder (JObj kvs)"
  proof
    fix name
    assume "name \<in> set ?start"
    then have "name \<in> set refs \<or> name \<in> set (addRef (lookup (JObj kvs) ''$ref'') refs)"
      by (cases "truthy (lookup (JObj kvs) ''$ref'')") (simp_all del: lookup.simps)
    then show "name \<in> set refs \<union> referencedUnder (JObj kvs)"
      using addRef_sound [of name "lookup (JObj kvs) ''$ref''" refs]
        referencedUnder_self [of "JObj kvs" name]
      by blast
  qed
  have inner: "(\<Union>kv\<in>set kvs. referencedUnder (snd kv)) \<subseteq> referencedUnder (JObj kvs)"
    using referencedUnder_field [of _ _ kvs] by force
  show ?case unfolding unfold by (rule subset_step [OF 1 start inner])
next
  case (2 xs refs)
  have inner: "(\<Union>x\<in>set xs. referencedUnder x) \<subseteq> referencedUnder (JArr xs)"
    using referencedUnder_element [of _ xs] by blast
  have unfold: "walkObject (JArr xs) refs = walkElements xs refs"
    by (simp only: walkObject.simps)
  show ?case unfolding unfold by (rule subset_step [OF 2 subset_refl [THEN subset_trans] inner]) simp
next
  case (5 k v rest refs)
  let ?next = "case v of JArr ys \<Rightarrow> fold walkObject ys refs
               | _ \<Rightarrow> if typeofObject v then walkObject v refs else refs"
  have step: "set ?next \<subseteq> set refs \<union> referencedUnder v"
    by (rule walk_value_sound) (use 5(6,7) in blast)+
  have unfold: "walkEntries ((k, v) # rest) refs = walkEntries rest ?next"
    by (simp only: walkEntries.simps)
  have split: "(\<Union>kv\<in>set ((k, v) # rest). referencedUnder (snd kv))
      = referencedUnder v \<union> (\<Union>kv\<in>set rest. referencedUnder (snd kv))"
    by simp
  show ?case unfolding unfold split by (rule subset_cons [OF 5(9) step])
next
  case (7 v rest refs)
  let ?next = "case v of JArr ys \<Rightarrow> fold walkObject ys refs
               | _ \<Rightarrow> if typeofObject v then walkObject v refs else refs"
  have step: "set ?next \<subseteq> set refs \<union> referencedUnder v"
    by (rule walk_value_sound) (use 7(6,7) in blast)+
  have unfold: "walkElements (v # rest) refs = walkElements rest ?next"
    by (simp only: walkElements.simps)
  have split: "(\<Union>x\<in>set (v # rest). referencedUnder x)
      = referencedUnder v \<union> (\<Union>x\<in>set rest. referencedUnder x)"
    by simp
  show ?case unfolding unfold split by (rule subset_cons [OF 7(9) step])
qed simp_all

subsection \<open>Seeds\<close>

lemma addSeed_sound:
  "name \<in> set (foldl (addSeed spec) refs seeds) \<Longrightarrow>
     name \<in> set refs \<or>
     (name \<in> set seeds \<and> truthy (optProp (optProp (lookup spec ''components'') ''schemas'') name))"
  by (induction seeds arbitrary: refs) (fastforce simp: addSeed_def setAdd_def split: if_splits)+

lemma seed_is_key:
  assumes "name \<in> set seedSchemas" and "truthy (optProp schemas name)"
  shows "name \<in> set (ownKeys schemas)"
proof (cases schemas)
  case (JObj kvs)
  with assms(2) obtain v where "map_of kvs name = Some v"
    by (auto simp: optProp_def split: option.splits)
  then have "name \<in> fst ` set kvs" by (force dest: map_of_SomeD)
  with JObj show ?thesis by (simp add: ownKeys_def)
next
  case (JArr xs)
  with assms show ?thesis
    by (auto simp: optProp_def seedSchemas_def arrayIndex_def isDigit_def digits_def)
next
  case (JStr s)
  with assms show ?thesis
    by (auto simp: optProp_def seedSchemas_def arrayIndex_def isDigit_def digits_def)
qed (use assms in \<open>auto simp: optProp_def\<close>)

subsection \<open>The keys of the objects that are built\<close>

lemma insertIndex_keys:
  "set (map fst (insertIndex i k v kvs)) = insert k (set (map fst kvs))"
proof (induction kvs)
  case Nil
  then show ?case by simp
next
  case (Cons kv kvs)
  obtain k' v' where kv: "kv = (k', v')" by (cases kv)
  show ?case
  proof (cases "arrayIndex k'")
    case None
    then show ?thesis unfolding kv by auto
  next
    case (Some j)
    show ?thesis
    proof (cases "j < i")
      case True
      with Some Cons.IH show ?thesis unfolding kv by auto
    next
      case False
      with Some show ?thesis unfolding kv by auto
    qed
  qed
qed

lemma replace_keys: "map fst (map (\<lambda>(k', v'). if k' = k then (k', v) else (k', v')) kvs) = map fst kvs"
  by (induction kvs) auto

lemma setProp_keys:
  "set (map fst (setProp kvs k v)) =
     (if k = ''__proto__'' then set (map fst kvs) else insert k (set (map fst kvs)))"
proof (cases "k = ''__proto__''")
  case True
  then show ?thesis by (simp add: setProp_def)
next
  case False
  show ?thesis
  proof (cases "k \<in> set (map fst kvs)")
    case True
    with False show ?thesis
      unfolding setProp_def by (simp only: if_False if_True replace_keys insert_absorb)
  next
    case absent: False
    show ?thesis
    proof (cases "arrayIndex k")
      case None
      with False absent show ?thesis unfolding setProp_def by simp
    next
      case (Some i)
      with False absent show ?thesis
        unfolding setProp_def by (simp only: if_False option.case insertIndex_keys)
    qed
  qed
qed

lemma referencedEntries_keys:
  "referencedEntries schemas names simplified = Inr entries \<Longrightarrow>
     set (map fst entries) =
       set (map fst simplified) \<union>
       {name \<in> set names. name \<noteq> ''__proto__'' \<and> truthy (lookup schemas name)}"
proof (induction names arbitrary: simplified)
  case Nil
  then show ?case by simp
next
  case (Cons name names)
  show ?case
  proof (cases "truthy (lookup schemas name)")
    case True
    with Cons.prems obtain s where
      "referencedEntries schemas names (setProp simplified name s) = Inr entries"
      by (auto simp: bindE_Inr_iff)
    from Cons.IH [OF this] True show ?thesis
      by (auto simp: setProp_keys simp del: set_map split: if_splits)
  next
    case False
    with Cons.prems have "referencedEntries schemas names simplified = Inr entries"
      by simp
    from Cons.IH [OF this] False show ?thesis by auto
  qed
qed

lemma truthy_lookup: "truthy (lookup schemas name) \<Longrightarrow> truthy schemas"
  by (cases schemas) (auto split: option.splits if_splits)

lemma map_of_skip: "k \<notin> set (map fst xs) \<Longrightarrow> map_of (xs @ ys) k = map_of ys k"
  by (induction xs) auto

lemma hostField_keys: "set (map fst (hostField spec)) \<subseteq> {''host''}"
  by (auto simp: hostField_def Let_def)

lemma secField_keys: "set (map fst (secField spec)) \<subseteq> {''sec''}"
  by (auto simp: secField_def Let_def)

lemma output_schemas:
  assumes "simplifySpec spec = Inr simplified"
    and "collectReferencedSchemas spec = Inr referenced"
  shows "set (ownKeys (lookup simplified ''schemas'')) =
     {name \<in> set referenced.
        name \<noteq> ''__proto__''
        \<and> truthy (lookup (optProp (lookup spec ''components'') ''schemas'') name)}"
proof -
  let ?schemas = "optProp (lookup spec ''components'') ''schemas''"
  from assms(1) obtain endpoints field where
    field: "schemasField spec = Inr field" and
    simplified: "simplified =
      JObj ((hostField spec @ secField spec @ [(''endpoints'', JArr endpoints)]) @ field)"
    by (auto simp: simplifySpec_def bindE_Inr_iff)
  have "''schemas'' \<notin> set (map fst (hostField spec @ secField spec @ [(''endpoints'', JArr endpoints)]))"
    using hostField_keys [of spec] secField_keys [of spec] by auto
  then have skip: "map_of ((hostField spec @ secField spec @ [(''endpoints'', JArr endpoints)]) @ field)
      ''schemas'' = map_of field ''schemas''"
    by (rule map_of_skip)
  have found: "lookup simplified ''schemas'' = lookup (JObj field) ''schemas''"
    unfolding simplified lookup.simps skip by (rule refl)
  show ?thesis
  proof (cases "referenced \<noteq> [] \<and> truthy ?schemas")
    case True
    with field assms(2) obtain entries where
      entries: "referencedEntries ?schemas referenced [] = Inr entries" and
      "field = [(''schemas'', JObj entries)]"
      by (auto simp: schemasField_def bindE_Inr_iff)
    then have "lookup simplified ''schemas'' = JObj entries"
      using found by simp
    with referencedEntries_keys [OF entries] show ?thesis
      by (simp add: ownKeys_def del: set_map)
  next
    case False
    with field assms(2) have "field = []"
      by (auto simp: schemasField_def bindE_Inr_iff)
    then have "lookup simplified ''schemas'' = JUndefined"
      using found by simp
    moreover have "\<not> truthy (lookup ?schemas name)" if "name \<in> set referenced" for name
      using False that truthy_lookup by (cases referenced) auto
    ultimately show ?thesis by (auto simp: ownKeys_def)
  qed
qed

subsection \<open>The method keys that pass the filter\<close>

lemma lower_method: "method \<in> set httpMethods \<Longrightarrow> toLowerCase method = method"
  by (auto simp: httpMethods_def toLowerCase_def toLowerChar_def)

section \<open>The parser and the orchestration\<close>

text \<open>
  C1, as stated, fails: while the YAML library is not loaded, \<^verbatim>\<open>processSpec\<close> returns
  before it parses, also for a text that \<^verbatim>\<open>JSON.parse\<close> accepts. The text \<^verbatim>\<open>{}\<close> is
  answered with the message that the parser is not loaded, and no output is produced.
\<close>

theorem c1_counterexample:
  "sampleJSONparse ''{}'' = Inr (JObj [])
   \<and> outputSpec (processSpec sampleJSONparse sampleStringify ''{}'' None initialState) = []
   \<and> error (processSpec sampleJSONparse sampleStringify ''{}'' None initialState)
       = ''YAML parser not loaded yet, please wait...''"
  by (simp add: sampleJSONparse_def processSpec_def initialState_def trim_def isWhiteSpace_def)

text \<open>
  C1, amended. For an input that is not blank and that the strict parse accepts:
  \<^verbatim>\<open>parseSpec\<close> returns the strict result whether or not the YAML parser is loaded, so
  that it raises \<open>ParserUnavailable\<close> only after the strict parse has failed; with the
  YAML parser loaded, \<^verbatim>\<open>processSpec\<close> compacts the strict result without consulting the
  YAML parser, and the output is the serialised compact document, or the run reports the
  error that compaction raised; with the YAML parser not loaded, \<^verbatim>\<open>processSpec\<close> reports
  that the parser is not loaded and writes no output.
\<close>

theorem c1_strict_parse:
  assumes "trim inputSpec \<noteq> []" and "JSON_parse inputSpec = Inr parsed"
  shows "parseSpec JSON_parse yamlParser inputSpec = Inr parsed
    \<and> processSpec JSON_parse JSON_stringify inputSpec (Some yaml_load) st =
        (case simplifySpec parsed of
           Inr simplified \<Rightarrow>
             st\<lparr>isProcessing := False, error := [], outputSpec := JSON_stringify simplified\<rparr>
         | Inl err \<Rightarrow>
             st\<lparr>isProcessing := False,
                error := ''Error processing spec: '' @ message err,
                outputSpec := []\<rparr>)
    \<and> processSpec JSON_parse JSON_stringify inputSpec None st =
        st\<lparr>error := ''YAML parser not loaded yet, please wait...''\<rparr>"
  using assms by (simp add: processSpec_def parseSpec_def)

theorem c1_strict_parse_witness:
  \<open>trim ''{}'' \<noteq> [] \<and> sampleJSONparse ''{}'' = Inr (JObj [])
   \<and> processSpec sampleJSONparse sampleStringify ''{}'' (Some sampleYAMLload) initialState
       = \<lparr>outputSpec = ''{"endpoints":[]}'', error = [], isProcessing = False\<rparr>
   \<and> processSpec sampleJSONparse sampleStringify ''{}'' None initialState
       = \<lparr>outputSpec = [], error = ''YAML parser not loaded yet, please wait...'',
          isProcessing = False\<rparr>\<close>
proof -
  have nonblank: "trim ''{}'' \<noteq> []"
    by (simp add: trim_def isWhiteSpace_def)
  have accepted: "sampleJSONparse ''{}'' = Inr (JObj [])"
    by (simp add: sampleJSONparse_def)
  show ?thesis
    using nonblank accepted
      c1_strict_parse [where inputSpec = "''{}''" and JSON_parse = sampleJSONparse
        and parsed = "JObj []" and yamlParser = None and JSON_stringify = sampleStringify
        and yaml_load = sampleYAMLload and st = initialState]
    by (simp add: simplifySpec_empty sampleStringify_def initialState_def)
qed

text \<open>
  C8: an input that is empty or consists of white space only gives the empty output and
  the empty error, whatever the parsers are and whether or not the YAML parser is loaded.
\<close>

theorem c8_blank_input:
  assumes "\<forall>c\<in>set inputSpec. isWhiteSpace c"
  shows "outputSpec (processSpec JSON_parse JSON_stringify inputSpec yamlParser st) = []
         \<and> error (processSpec JSON_parse JSON_stringify inputSpec yamlParser st) = []"
  using assms by (simp add: processSpec_def trim_blank)

theorem c8_blank_input_witness:
  "isWhiteSpace (CHR '' '') \<and> isWhiteSpace (CHR 0x0A)
   \<and> outputSpec (processSpec sampleJSONparse sampleStringify [CHR '' '', CHR 0x0A] None
        \<lparr>outputSpec = ''stale'', error = ''stale'', isProcessing = False\<rparr>) = []
   \<and> error (processSpec sampleJSONparse sampleStringify [CHR '' '', CHR 0x0A] None
        \<lparr>outputSpec = ''stale'', error = ''stale'', isProcessing = False\<rparr>) = []"
proof -
  have blank: "\<forall>c\<in>set [CHR '' '', CHR 0x0A]. isWhiteSpace c"
    by (simp add: isWhiteSpace_def)
  show ?thesis using blank c8_blank_input [OF blank] by simp
qed



section \<open>The endpoint extractor\<close>

text \<open>
  C2 at a method key in upper case. The descriptor is built with
  \<^verbatim>\<open>m: method.toLowerCase()\<close>, which turns \<^verbatim>\<open>GET\<close> into \<^verbatim>\<open>get\<close>; but the
  membership test before it compares the key as it is written, so that the operation
  under \<^verbatim>\<open>GET\<close> never reaches that line and gets no descriptor, while the same
  operation under \<^verbatim>\<open>get\<close> gets one. On the keys that pass the test the conversion
  changes nothing (\<open>lower_method\<close>).
\<close>

theorem c2_uppercase_method_skipped:
  "simplifySpec (JObj [(''paths'', JObj [(''/pets'', JObj [(''GET'', JObj [])])])])
     = Inr (JObj [(''endpoints'', JArr [])])
   \<and> endpoint ''GET'' ''/pets'' (JObj [])
     = Inr (JObj [(''m'', JStr ''get''), (''p'', JStr ''/pets''), (''codes'', JArr [])])
   \<and> simplifySpec (JObj [(''paths'', JObj [(''/pets'', JObj [(''get'', JObj [])])])])
     = Inr (JObj [(''endpoints'',
         JArr [JObj [(''m'', JStr ''get''), (''p'', JStr ''/pets''), (''codes'', JArr [])]])])"
  by (simp add: eval_defs char_of_eq_iff)

text \<open>
  C10: when the summary of an operation is a non-empty string of white space only, the
  descriptor has no \<^verbatim>\<open>desc\<close> field, whatever the description of the operation is:
  the summary is truthy and is chosen, it is cleaned to the empty string, and the empty
  string is not stored.
\<close>

theorem c10_blank_summary_hides_description:
  assumes "lookup operation ''summary'' = JStr s"
    and "s \<noteq> []"
    and "\<forall>c\<in>set s. isWhiteSpace c"
    and "endpoint method path operation = Inr descriptor"
  shows "''desc'' \<notin> set (ownKeys descriptor) \<and> lookup descriptor ''desc'' = JUndefined"
proof -
  from assms(1) have present: "\<not> nullish operation"
    by (cases operation) auto
  have chosen: "orElse (JStr s) (lookup operation ''description'') = JStr s"
    using assms(2) by (simp add: orElse_def)
  have desc: "truncateDescription
      (orElse (lookup operation ''summary'') (lookup operation ''description'')) 100 = JStr []"
    by (simp only: assms(1) chosen blank_description [OF assms(2,3)])
  from assms(4) present obtain parameters where
    params: "parameterFields operation = Inr parameters" and
    built: "descriptor = JObj ([(''m'', JStr (toLowerCase method)), (''p'', JStr path)] @
              parameters @ requestField operation @ responseField operation @
              [(''codes'', JArr (statusCodes operation))])"
    by (auto simp: endpoint_def getProp_def desc bindE_Inr_iff
        simp del: truncateDescription.simps)
  have keys: "''desc'' \<notin> set (map fst
      ([(''m'', JStr (toLowerCase method)), (''p'', JStr path)] @
        parameters @ requestField operation @ responseField operation @
        [(''codes'', JArr (statusCodes operation))]))"
    using parameterFields_keys [OF params] requestField_keys [of operation]
      responseField_keys [of operation]
    by auto
  then have "map_of ([(''m'', JStr (toLowerCase method)), (''p'', JStr path)] @
        parameters @ requestField operation @ responseField operation @
        [(''codes'', JArr (statusCodes operation))]) ''desc'' = None"
    unfolding set_map by (rule iffD2 [OF map_of_eq_None_iff])
  with keys show ?thesis
    unfolding built by (simp only: ownKeys_def ownEntries.simps lookup.simps option.case simp_thms)
qed

theorem c10_blank_summary_hides_description_witness:
  "lookup (JObj [(''summary'', JStr ''  ''), (''description'', JStr ''List all pets'')]) ''summary''
     = JStr ''  ''
   \<and> ''  '' \<noteq> [] \<and> isWhiteSpace (CHR '' '')
   \<and> endpoint ''get'' ''/pets''
        (JObj [(''summary'', JStr ''  ''), (''description'', JStr ''List all pets'')])
       = Inr (JObj [(''m'', JStr ''get''), (''p'', JStr ''/pets''), (''codes'', JArr [])])
   \<and> ''desc'' \<notin> set (ownKeys (JObj [(''m'', JStr ''get''), (''p'', JStr ''/pets''),
                                     (''codes'', JArr [])]))"
proof -
  let ?operation = "JObj [(''summary'', JStr ''  ''), (''description'', JStr ''List all pets'')]"
  have summary: "lookup ?operation ''summary'' = JStr ''  ''" by simp
  have nonempty: "''  '' \<noteq> []" by simp
  have blank: "\<forall>c\<in>set ''  ''. isWhiteSpace c" by (simp add: isWhiteSpace_def)
  have built: "endpoint ''get'' ''/pets'' ?operation
      = Inr (JObj [(''m'', JStr ''get''), (''p'', JStr ''/pets''), (''codes'', JArr [])])"
    by (simp add: eval_defs)
  show ?thesis
    using summary blank built
      c10_blank_summary_hides_description [OF summary nonempty blank built]
    by simp
qed


section \<open>The scenario\<close>

text \<open>
  C4: on the scenario document the output has the one endpoint descriptor the
  specification gives, and its \<^verbatim>\<open>schemas\<close> has an entry for \<^verbatim>\<open>Pets\<close> and none for
  \<^verbatim>\<open>Pet\<close>.
\<close>

theorem c4_scenario:
  "simplifySpec scenarioDocument =
     Inr (JObj [(''endpoints'', JArr [JObj [(''m'', JStr ''get''), (''p'', JStr ''/pets''),
                   (''desc'', JStr ''List all pets''),
                   (''qp'', JArr [JStr ''limit:integer?(int32)'']),
                   (''res'', JStr ''Pets''), (''codes'', JArr [JNum 200])]]),
                (''schemas'', JObj [(''Pets'', JObj [(''type'', JStr ''array''),
                                                   (''items'', JObj [(''$ref'', JStr ''Pet'')])])])])"
  unfolding scenarioDocument_def by (simp add: eval_defs)

section \<open>Schema compaction\<close>

text \<open>
  C6, as stated, fails at the empty type string: it is falsy, so that the node with the
  one field \<^verbatim>\<open>type\<close> is not taken for a plain type and is rewritten to the empty
  object.
\<close>

theorem c6_counterexample:
  "simplifySchema (JObj [(''type'', JStr [])]) = Inr (JObj [])
   \<and> simplifySchema (JObj [(''type'', JStr [])]) \<noteq> Inr (JStr [])"
  by (simp add: simplifySchema_JObj keptFields_def ownKeys_def)

text \<open>
  C6, amended. For every non-empty string \<open>t\<close>, the node with the single field
  \<^verbatim>\<open>type\<close> of value \<open>t\<close> compacts to the string \<open>t\<close>, and compacting that string
  again returns it. For non-empty strings \<open>t\<close> and \<open>f\<close>, the node with exactly the
  fields \<^verbatim>\<open>type\<close> and \<^verbatim>\<open>format\<close>, in either order, compacts to \<open>t(f)\<close>, and
  compacting that string again returns it.
\<close>

theorem c6_plain_type_idempotent:
  assumes "t \<noteq> []"
  shows "simplifySchema (JObj [(''type'', JStr t)]) = Inr (JStr t)
    \<and> simplifySchema (JStr t) = Inr (JStr t)
    \<and> (f \<noteq> [] \<longrightarrow>
         simplifySchema (JObj [(''type'', JStr t), (''format'', JStr f)])
           = Inr (JStr (t @ ''('' @ f @ '')''))
       \<and> simplifySchema (JObj [(''format'', JStr f), (''type'', JStr t)])
           = Inr (JStr (t @ ''('' @ f @ '')''))
       \<and> simplifySchema (JStr (t @ ''('' @ f @ '')'')) = Inr (JStr (t @ ''('' @ f @ '')'')))"
  using assms by (simp add: simplifySchema_JObj simplifySchema_primitive ownKeys_def)

theorem c6_plain_type_idempotent_witness:
  "''string'' \<noteq> [] \<and> ''int64'' \<noteq> []
   \<and> simplifySchema (JObj [(''type'', JStr ''string'')]) = Inr (JStr ''string'')
   \<and> simplifySchema (JStr ''string'') = Inr (JStr ''string'')
   \<and> simplifySchema (JObj [(''type'', JStr ''integer''), (''format'', JStr ''int64'')])
       = Inr (JStr ''integer(int64)'')
   \<and> simplifySchema (JStr ''integer(int64)'') = Inr (JStr ''integer(int64)'')"
  using c6_plain_type_idempotent [of "''string''" "''int64''"]
        c6_plain_type_idempotent [of "''integer''" "''int64''"]
  by simp

section \<open>Truncation of descriptions\<close>

text \<open>
  C7, as stated, fails at the empty description: its cleaned form is the empty string,
  within the cap, and \<^verbatim>\<open>truncateDescription\<close> returns \<^verbatim>\<open>undefined\<close> for it.
\<close>

theorem c7_counterexample:
  "length (trim (collapseWhitespace [])) \<le> 100
   \<and> truncateDescription (JStr []) 100 = JUndefined
   \<and> truncateDescription (JStr []) 100 \<noteq> JStr (trim (collapseWhitespace []))"
  by (simp add: trim_def)

text \<open>
  C7, amended. For every non-empty string description: when its cleaned form (runs of
  white space collapsed, then trimmed) has at most 100 characters, that form is returned;
  when it is longer, its first 100 characters followed by \<^verbatim>\<open>...\<close> are returned. So a
  description of 101 characters without white space gives 103 characters ending in the
  marker, and one of 100 such characters is returned as it is. Whatever the argument, a
  string that is returned has at most 100 characters plus the length of the marker.
\<close>

theorem c7_truncation:
  assumes "desc \<noteq> []"
  shows "(length (trim (collapseWhitespace desc)) \<le> 100 \<longrightarrow>
            truncateDescription (JStr desc) 100 = JStr (trim (collapseWhitespace desc)))
    \<and> (100 < length (trim (collapseWhitespace desc)) \<longrightarrow>
            truncateDescription (JStr desc) 100
              = JStr (take 100 (trim (collapseWhitespace desc)) @ ''...''))
    \<and> (length desc = 101 \<and> (\<forall>c\<in>set desc. \<not> isWhiteSpace c) \<longrightarrow>
            truncateDescription (JStr desc) 100 = JStr (take 100 desc @ ''...'')
            \<and> length (take 100 desc @ ''...'') = 103)
    \<and> (length desc = 100 \<and> (\<forall>c\<in>set desc. \<not> isWhiteSpace c) \<longrightarrow>
            truncateDescription (JStr desc) 100 = JStr desc)
    \<and> (\<forall>v t. truncateDescription v 100 = JStr t \<longrightarrow> length t \<le> 100 + length ''...'')"
proof (intro conjI impI allI)
  show "truncateDescription (JStr desc) 100 = JStr (trim (collapseWhitespace desc))"
    if "length (trim (collapseWhitespace desc)) \<le> 100"
    using assms that by (simp add: Let_def)
  show "truncateDescription (JStr desc) 100
          = JStr (take 100 (trim (collapseWhitespace desc)) @ ''...'')"
    if "100 < length (trim (collapseWhitespace desc))"
    using assms that by (simp add: Let_def)
  show "truncateDescription (JStr desc) 100 = JStr (take 100 desc @ ''...'')"
    if "length desc = 101 \<and> (\<forall>c\<in>set desc. \<not> isWhiteSpace c)"
    using assms that by (simp add: Let_def collapse_solid trim_solid)
  show "length (take 100 desc @ ''...'') = 103"
    if "length desc = 101 \<and> (\<forall>c\<in>set desc. \<not> isWhiteSpace c)"
    using that by simp
  show "truncateDescription (JStr desc) 100 = JStr desc"
    if "length desc = 100 \<and> (\<forall>c\<in>set desc. \<not> isWhiteSpace c)"
    using assms that by (simp add: Let_def collapse_solid trim_solid)
  show "length t \<le> 100 + length ''...''" if "truncateDescription v 100 = JStr t" for v t
    using truncate_bound [OF that] by simp
qed

theorem c7_truncation_witness:
  "''List  all pets '' \<noteq> []
   \<and> truncateDescription (JStr ''List  all pets '') 100 = JStr ''List all pets''
   \<and> replicate 101 (CHR ''a'') \<noteq> []
   \<and> truncateDescription (JStr (replicate 101 (CHR ''a''))) 100
       = JStr (replicate 100 (CHR ''a'') @ ''...'')
   \<and> length (replicate 100 (CHR ''a'') @ ''...'') = 103"
proof -
  have short: "''List  all pets '' \<noteq> []" by simp
  have cleaned: "trim (collapseWhitespace ''List  all pets '') = ''List all pets''"
    by (simp add: trim_def isWhiteSpace_def)
  have long: "replicate 101 (CHR ''a'') \<noteq> []" by simp
  have solid: "\<forall>c\<in>set (replicate 101 (CHR ''a'')). \<not> isWhiteSpace c"
    by (simp add: isWhiteSpace_def)
  show ?thesis
    using short long solid cleaned
      c7_truncation [OF short] c7_truncation [OF long]
    by simp
qed


section \<open>The reference set and the schemas of the output\<close>

text \<open>
  C3, as stated, fails: the walk records the name of every \<^verbatim>\<open>$ref\<close> with the internal
  prefix and never looks the name up. A document whose operation refers to \<^verbatim>\<open>Pets\<close> and
  that has no \<^verbatim>\<open>components\<close> gives the reference set \<^verbatim>\<open>Pets\<close>, which is no key of
  \<^verbatim>\<open>components.schemas\<close>.
\<close>

theorem c3_counterexample:
  "collectReferencedSchemas danglingDocument = Inr [''Pets'']
   \<and> ownKeys (optProp (lookup danglingDocument ''components'') ''schemas'') = []"
  by (simp add: danglingDocument_def listPetsPaths_def eval_defs)

text \<open>
  C3, amended. Every name of the reference set is the name, with the prefix stripped, of
  a \<^verbatim>\<open>$ref\<close> at a node reachable from \<^verbatim>\<open>paths\<close>, or it is one of the four seed names
  and a key of \<^verbatim>\<open>components.schemas\<close>.
\<close>

theorem c3_reference_origin:
  assumes "collectReferencedSchemas spec = Inr referenced"
    and "name \<in> set referenced"
  shows "name \<in> referencedUnder (lookup spec ''paths'')
    \<or> (name \<in> set seedSchemas
        \<and> name \<in> set (ownKeys (optProp (lookup spec ''components'') ''schemas'')))"
proof -
  let ?walked = "if truthy (lookup spec ''paths'') then walkObject (lookup spec ''paths'') [] else []"
  from assms(1) have "referenced = foldl (addSeed spec) ?walked seedSchemas"
    by (auto simp: collectReferencedSchemas_def getProp_def split: if_splits)
  with assms(2) have "name \<in> set ?walked
      \<or> (name \<in> set seedSchemas
          \<and> truthy (optProp (optProp (lookup spec ''components'') ''schemas'') name))"
    using addSeed_sound [of name spec ?walked seedSchemas] by simp
  then show ?thesis
  proof
    assume "name \<in> set ?walked"
    then have "name \<in> set (walkObject (lookup spec ''paths'') [])"
      by (simp split: if_splits)
    with walk_sound(1) [of "lookup spec ''paths''" "[]"] show ?thesis by auto
  next
    assume "name \<in> set seedSchemas
      \<and> truthy (optProp (optProp (lookup spec ''components'') ''schemas'') name)"
    then show ?thesis using seed_is_key by blast
  qed
qed

theorem c3_reference_origin_witness:
  "collectReferencedSchemas scenarioDocument = Inr [''Pets'']
   \<and> ''Pets'' \<in> referencedUnder (lookup scenarioDocument ''paths'')"
proof -
  have collected: "collectReferencedSchemas scenarioDocument = Inr [''Pets'']"
    by (simp add: scenarioDocument_def eval_defs)
  have member: "''Pets'' \<in> set [''Pets'']" by simp
  show ?thesis
    using collected c3_reference_origin [OF collected member]
    by (simp add: seedSchemas_def)
qed

text \<open>
  C5, as stated, fails in its second half: the copy loop tests the entry for truthiness,
  so that a referenced name whose entry in \<^verbatim>\<open>components.schemas\<close> is \<^verbatim>\<open>null\<close> is a key
  there and is missing from the output.
\<close>

theorem c5_counterexample:
  "collectReferencedSchemas nullSchemaDocument = Inr [''Pets'']
   \<and> ownKeys (optProp (lookup nullSchemaDocument ''components'') ''schemas'') = [''Pets'']
   \<and> simplifySpec nullSchemaDocument =
       Inr (JObj [(''endpoints'', JArr [JObj [(''m'', JStr ''get''), (''p'', JStr ''/pets''),
                     (''res'', JStr ''Pets''), (''codes'', JArr [JNum 200])]]),
                  (''schemas'', JObj [])])"
  by (simp add: nullSchemaDocument_def listPetsPaths_def eval_defs)

text \<open>
  C5, amended. Whenever \<^verbatim>\<open>simplifySpec\<close> returns: every key of the output's
  \<^verbatim>\<open>schemas\<close> is a member of the reference set and has a truthy entry in
  \<^verbatim>\<open>components.schemas\<close>; and every member of the reference set whose entry in
  \<^verbatim>\<open>components.schemas\<close> is truthy is a key of the output's \<^verbatim>\<open>schemas\<close>, the name
  \<^verbatim>\<open>__proto__\<close> apart, whose assignment creates no property.
\<close>

theorem c5_output_schemas:
  assumes "simplifySpec spec = Inr simplified"
    and "collectReferencedSchemas spec = Inr referenced"
  shows "(\<forall>name\<in>set (ownKeys (lookup simplified ''schemas'')).
            name \<in> set referenced
            \<and> truthy (lookup (optProp (lookup spec ''components'') ''schemas'') name))
    \<and> (\<forall>name\<in>set referenced.
            truthy (lookup (optProp (lookup spec ''components'') ''schemas'') name)
            \<and> name \<noteq> ''__proto__''
            \<longrightarrow> name \<in> set (ownKeys (lookup simplified ''schemas'')))"
  unfolding output_schemas [OF assms] by blast

theorem c5_output_schemas_witness:
  "collectReferencedSchemas scenarioDocument = Inr [''Pets'']
   \<and> simplifySpec scenarioDocument =
     Inr (JObj [(''endpoints'', JArr [JObj [(''m'', JStr ''get''), (''p'', JStr ''/pets''),
                   (''desc'', JStr ''List all pets''),
                   (''qp'', JArr [JStr ''limit:integer?(int32)'']),
                   (''res'', JStr ''Pets''), (''codes'', JArr [JNum 200])]]),
                (''schemas'', JObj [(''Pets'', JObj [(''type'', JStr ''array''),
                                                   (''items'', JObj [(''$ref'', JStr ''Pet'')])])])])
   \<and> ownKeys (JObj [(''Pets'', JObj [(''type'', JStr ''array''),
                                     (''items'', JObj [(''$ref'', JStr ''Pet'')])])]) = [''Pets'']"
proof -
  have collected: "collectReferencedSchemas scenarioDocument = Inr [''Pets'']"
    by (simp add: scenarioDocument_def eval_defs)
  have result: "simplifySpec scenarioDocument =
     Inr (JObj [(''endpoints'', JArr [JObj [(''m'', JStr ''get''), (''p'', JStr ''/pets''),
                   (''desc'', JStr ''List all pets''),
                   (''qp'', JArr [JStr ''limit:integer?(int32)'']),
                   (''res'', JStr ''Pets''), (''codes'', JArr [JNum 200])]]),
                (''schemas'', JObj [(''Pets'', JObj [(''type'', JStr ''array''),
                                                   (''items'', JObj [(''$ref'', JStr ''Pet'')])])])])"
    unfolding scenarioDocument_def by (simp add: eval_defs)
  show ?thesis
    using collected result c5_output_schemas [OF result collected]
    by (simp add: ownKeys_def)
qed

end
